theory Spec2Isabelle
  imports Complex_Main
begin

section \<open>Data model\<close>

text \<open>
  The position lifecycle of \<^verbatim>\<open>src/src/order_manager.py\<close> (class OrderManager) and the
  reconciliation part of \<^verbatim>\<open>src/bot.py\<close> (MovingAverageCrossoverML.run).

  Numbers: Python computes prices, sizes and percentages in ints and binary floats. They
  are modelled as exact reals, so rounding of floats is not part of the model; a division
  by zero raises ZeroDivisionError as in Python and is written out wherever the code divides.
\<close>

text \<open>An entry of \<^verbatim>\<open>self.open_orders\<close>: the dict appended at order_manager.py:88-95.\<close>

record position =
  symbol :: string
  direction :: string
  order_size :: real
  entry_price :: real
  stop_loss_price :: real
  take_profit_price :: real

text \<open>
  The keys of the shared \<^verbatim>\<open>config\<close> dict that the modelled code reads.
  \<^verbatim>\<open>symbols\<close> and \<^verbatim>\<open>check_interval\<close> are copied into attributes of the bot at
  construction (bot.py:21, 34) and never assigned again, so they are read from here.
\<close>

record bot_config =
  symbols :: "string list"
  leverage :: real
  investment_amount :: real
  sl_percentage :: real
  tp_percentage :: real
  check_interval :: nat

datatype exn = ExchangeError | ZeroDivisionError | ValueError

text \<open>
  The keyword arguments of \<^verbatim>\<open>kucoin.create_order\<close>. \<^verbatim>\<open>type\<close> is always
  \<^verbatim>\<open>'market'\<close>; an opening order carries leverage, marginMode \<^verbatim>\<open>'ISOLATED'\<close>, a
  clientOid \<^verbatim>\<open>order_<seconds>\<close> and reduceOnly False (order_manager.py:73-84); a closing
  order carries only reduceOnly True (order_manager.py:158-164).
\<close>

record order_req =
  req_symbol :: string
  req_side :: string
  req_amount :: real
  req_leverage :: "real option"
  req_client_oid :: "int option"
  reduce_only :: bool

text \<open>
  What the bot does to the outside, in order: a ticker fetch, an order submission (with
  whether the exchange accepted it) and a blocking sleep in seconds.
\<close>

datatype event =
  Fetch_ticker string
  | Create_order order_req bool
  | Sleep nat

text \<open>
  The outside of the bot, over a state \<open>'g\<close> of its own: the exchange client
  \<^verbatim>\<open>self.kucoin\<close> (which may raise on any call), the clock, and the signal source of
  bot.py:79-107 (data fetch, preprocessing, training and prediction), whose result is
  \<open>None\<close> on every path of that block that ends in \<^verbatim>\<open>continue\<close>.
  \<open>fetch_ticker\<close> stands for \<^verbatim>\<open>kucoin.fetch_ticker(symbol)['last']\<close>: \<open>Inl\<close> when the call
  or the lookup of \<^verbatim>\<open>'last'\<close> raises, \<open>Inr\<close> with the price otherwise; the price is a
  number.
\<close>

record 'g world =
  fetch_ticker :: "string \<Rightarrow> 'g \<Rightarrow> (exn + real) \<times> 'g"
  create_order :: "order_req \<Rightarrow> 'g \<Rightarrow> (exn + unit) \<times> 'g"
  time_now :: "'g \<Rightarrow> int"
  sleep_secs :: "nat \<Rightarrow> 'g \<Rightarrow> 'g"
  signal_for :: "string \<Rightarrow> 'g \<Rightarrow> int option \<times> 'g"

text \<open>
  The state of the bot: the state of the outside, the ledger \<^verbatim>\<open>open_orders\<close>, the
  shared config, the rows appended to the trade log (the closed order and its exit price;
  the row's timestamp is left out), and the events so far.
\<close>

record 'g bot =
  kucoin :: 'g
  open_orders :: "position list"
  config :: bot_config
  trade_log :: "(position \<times> real) list"
  trace :: "event list"

section \<open>Calls to the outside\<close>

definition do_fetch :: "'g world \<Rightarrow> string \<Rightarrow> 'g bot \<Rightarrow> (exn + real) \<times> 'g bot" where
  "do_fetch w smb s =
     (case fetch_ticker w smb (kucoin s) of
        (r, g) \<Rightarrow> (r, s\<lparr>kucoin := g, trace := trace s @ [Fetch_ticker smb]\<rparr>))"

definition do_create :: "'g world \<Rightarrow> order_req \<Rightarrow> 'g bot \<Rightarrow> (exn + unit) \<times> 'g bot" where
  "do_create w req s =
     (case create_order w req (kucoin s) of
        (r, g) \<Rightarrow> (r, s\<lparr>kucoin := g, trace := trace s @ [Create_order req (\<not> isl r)]\<rparr>))"

definition do_sleep :: "'g world \<Rightarrow> nat \<Rightarrow> 'g bot \<Rightarrow> 'g bot" where
  "do_sleep w n s = s\<lparr>kucoin := sleep_secs w n (kucoin s), trace := trace s @ [Sleep n]\<rparr>"

section \<open>OrderManager\<close>

text \<open>\<^verbatim>\<open>str.replace(old, new)\<close> for a non-empty \<open>old\<close>: leftmost, non-overlapping.\<close>

function replace_str :: "string \<Rightarrow> string \<Rightarrow> string \<Rightarrow> string" where
  "replace_str old new [] = []"
| "replace_str old new (c # cs) =
     (if old \<noteq> [] \<and> take (length old) (c # cs) = old
      then new @ replace_str old new (drop (length old) (c # cs))
      else c # replace_str old new cs)"
  by pat_completeness auto
termination
  by (relation "measure (\<lambda>(old, new, s). length s)") (auto simp: neq_Nil_conv)

definition format_symbol :: "string \<Rightarrow> string" where
  "format_symbol smb = replace_str ''USD'' ''USDT:USDT'' (replace_str ''-'' ''/'' smb)"

text \<open>
  show_open_trades (order_manager.py:117-143): one ticker fetch per ledger entry, each in
  its own try/except; the table is only logged, so a fetch that raises and one that
  returns leave the same state.
\<close>

fun show_loop :: "'g world \<Rightarrow> position list \<Rightarrow> 'g bot \<Rightarrow> 'g bot" where
  "show_loop w [] s = s"
| "show_loop w (order # rest) s = show_loop w rest (snd (do_fetch w (symbol order) s))"

definition show_open_trades :: "'g world \<Rightarrow> 'g bot \<Rightarrow> 'g bot" where
  "show_open_trades w s = (if open_orders s = [] then s else show_loop w (open_orders s) s)"

definition calculate_profit_percentage :: "real \<Rightarrow> real \<Rightarrow> string \<Rightarrow> exn + real" where
  "calculate_profit_percentage entry current dir =
     (if entry = 0 then Inl ZeroDivisionError
      else if dir = ''buy'' then Inr (((current - entry) / entry) * 100)
      else Inr (((entry - current) / entry) * 100))"

text \<open>
  Lines 55-60 of place_order: the order size and the one-shot correction of
  \<^verbatim>\<open>config['investment_amount']\<close>. The result is the config as the lines leave it and
  the order size; a ZeroDivisionError leaves the config as it was.
\<close>

definition order_sizing :: "bot_config \<Rightarrow> real \<Rightarrow> exn + (bot_config \<times> real)" where
  "order_sizing cfg current_price =
     (if current_price = 0 then Inl ZeroDivisionError
      else let osize = (investment_amount cfg * leverage cfg) / current_price in
        if osize < 1 then
          (if leverage cfg = 0 then Inl ZeroDivisionError
           else let cfg' = cfg\<lparr>investment_amount := of_int \<lceil>current_price / leverage cfg\<rceil>\<rparr>
                in Inr (cfg', (investment_amount cfg' * leverage cfg') / current_price))
        else Inr (cfg, osize))"

text \<open>
  The retry loop of place_order (order_manager.py:71-101), \<open>n\<close> attempts left: on success
  the position is appended, the open trades are shown and the loop is left; on an
  exception the loop sleeps 5 seconds and goes on.
\<close>

fun place_attempts :: "'g world \<Rightarrow> nat \<Rightarrow> order_req \<Rightarrow> position \<Rightarrow> 'g bot \<Rightarrow> 'g bot" where
  "place_attempts w 0 req pos s = s"
| "place_attempts w (Suc n) req pos s =
     (case do_create w req s of
        (Inr ack, s1) \<Rightarrow> show_open_trades w (s1\<lparr>open_orders := open_orders s1 @ [pos]\<rparr>)
      | (Inl e, s1) \<Rightarrow> place_attempts w n req pos (do_sleep w 5 s1))"

definition same_direction_open :: "string \<Rightarrow> int \<Rightarrow> position \<Rightarrow> bool" where
  "same_direction_open formatted_symbol signal order \<longleftrightarrow>
     symbol order = formatted_symbol \<and>
     ((signal = 1 \<and> direction order = ''buy'') \<or> (signal = 0 \<and> direction order = ''sell''))"

text \<open>
  place_order (order_manager.py:35-103). The stop-loss and take-profit prices of lines
  63-68 are the exact products here; the program stores their binary-float roundings,
  which can differ from them in the last place and, for a percentage of about 1e-14 or
  less, coincide with the entry price. No statement below compares the stored stop-loss
  or take-profit price of a new position with its entry price.
\<close>

definition place_order :: "'g world \<Rightarrow> string \<Rightarrow> int option \<Rightarrow> 'g bot \<Rightarrow> 'g bot" where
  "place_order w smb signal s =
     (case signal of
        None \<Rightarrow> s
      | Some sg \<Rightarrow>
          let formatted_symbol = format_symbol smb in
          if list_ex (same_direction_open formatted_symbol sg) (open_orders s) then s
          else
            (case do_fetch w formatted_symbol s of
               (Inl e, s1) \<Rightarrow> s1
             | (Inr current_price, s1) \<Rightarrow>
                 (case order_sizing (config s1) current_price of
                    Inl e \<Rightarrow> s1
                  | Inr (cfg', osize) \<Rightarrow>
                      let s2 = s1\<lparr>config := cfg'\<rparr>;
                          side = (if sg = 1 then ''buy'' else ''sell'');
                          sl_price =
                            (if side = ''buy''
                             then current_price * (1 - sl_percentage cfg' / 100)
                             else current_price * (1 + sl_percentage cfg' / 100));
                          tp_price =
                            (if side = ''buy''
                             then current_price * (1 + tp_percentage cfg' / 100)
                             else current_price * (1 - tp_percentage cfg' / 100));
                          client_oid = time_now w (kucoin s2)
                      in place_attempts w 3
                           \<lparr>req_symbol = formatted_symbol, req_side = side,
                            req_amount = osize, req_leverage = Some (leverage cfg'),
                            req_client_oid = Some client_oid, reduce_only = False\<rparr>
                           \<lparr>symbol = formatted_symbol, direction = side,
                            order_size = osize, entry_price = current_price,
                            stop_loss_price = sl_price,
                            take_profit_price = tp_price\<rparr>
                           s2)))"

text \<open>
  log_trade (order_manager.py:176-189): one row appended to the trade log. Writing the
  file is taken to succeed; logger calls have no effect on the state and are left out
  everywhere.
\<close>

definition log_trade :: "position \<Rightarrow> real \<Rightarrow> 'g bot \<Rightarrow> 'g bot" where
  "log_trade order exit_price s = s\<lparr>trade_log := trade_log s @ [(order, exit_price)]\<rparr>"

definition close_req :: "position \<Rightarrow> order_req" where
  "close_req order =
     \<lparr>req_symbol = symbol order,
      req_side = (if direction order = ''buy'' then ''sell'' else ''buy''),
      req_amount = order_size order, req_leverage = None, req_client_oid = None,
      reduce_only = True\<rparr>"

text \<open>
  The retry loop of close_order (order_manager.py:156-172). After an accepted order the
  trade is logged and \<^verbatim>\<open>self.open_orders.remove(order)\<close> removes the first equal entry;
  when there is none it raises ValueError, which the inner \<^verbatim>\<open>except\<close> catches like a
  failed submission.
\<close>

fun close_attempts :: "'g world \<Rightarrow> nat \<Rightarrow> position \<Rightarrow> real \<Rightarrow> 'g bot \<Rightarrow> 'g bot" where
  "close_attempts w 0 order current_price s = s"
| "close_attempts w (Suc n) order current_price s =
     (case do_create w (close_req order) s of
        (Inr ack, s1) \<Rightarrow>
          let s2 = log_trade order current_price s1 in
          if order \<in> set (open_orders s2)
          then s2\<lparr>open_orders := remove1 order (open_orders s2)\<rparr>
          else close_attempts w n order current_price (do_sleep w 5 s2)
      | (Inl e, s1) \<Rightarrow> close_attempts w n order current_price (do_sleep w 5 s1))"

definition close_order :: "'g world \<Rightarrow> position \<Rightarrow> real \<Rightarrow> 'g bot \<Rightarrow> 'g bot" where
  "close_order w order current_price s = close_attempts w 3 order current_price s"

text \<open>
  monitor_trades (order_manager.py:105-115). The ticker fetch of line 107 is in no
  try block: an exception of the exchange leaves the loop and the method.
\<close>

definition exit_hit :: "position \<Rightarrow> real \<Rightarrow> bool" where
  "exit_hit order current_price \<longleftrightarrow>
     (if direction order = ''buy''
      then current_price \<le> stop_loss_price order \<or> current_price \<ge> take_profit_price order
      else current_price \<ge> stop_loss_price order \<or> current_price \<le> take_profit_price order)"

definition monitor_one :: "'g world \<Rightarrow> position \<Rightarrow> 'g bot \<Rightarrow> (exn + unit) \<times> 'g bot" where
  "monitor_one w order s =
     (case do_fetch w (symbol order) s of
        (Inl e, s1) \<Rightarrow> (Inl e, s1)
      | (Inr current_price, s1) \<Rightarrow>
          (Inr (), if exit_hit order current_price then close_order w order current_price s1
                   else s1))"

fun monitor_loop :: "'g world \<Rightarrow> position list \<Rightarrow> 'g bot \<Rightarrow> (exn + unit) \<times> 'g bot" where
  "monitor_loop w [] s = (Inr (), s)"
| "monitor_loop w (order # rest) s =
     (case monitor_one w order s of
        (Inl e, s1) \<Rightarrow> (Inl e, s1)
      | (Inr u, s1) \<Rightarrow> monitor_loop w rest s1)"

definition monitor_trades :: "'g world \<Rightarrow> 'g bot \<Rightarrow> (exn + unit) \<times> 'g bot" where
  "monitor_trades w s =
     (case monitor_loop w (open_orders s) s of
        (Inl e, s1) \<Rightarrow> (Inl e, s1)
      | (Inr u, s1) \<Rightarrow> (Inr (), show_open_trades w s1))"

section \<open>The run loop of the bot\<close>

text \<open>
  bot.py:111-135 for one symbol and its signal. The ticker fetch of line 124 is in no
  try block. close_order returns nothing, and place_order is called right after it.
\<close>

definition conflicting :: "position \<Rightarrow> int \<Rightarrow> bool" where
  "conflicting existing_order new_signal \<longleftrightarrow>
     (direction existing_order = ''buy'' \<and> new_signal = 0) \<or>
     (direction existing_order = ''sell'' \<and> new_signal = 1)"

definition reconcile :: "'g world \<Rightarrow> string \<Rightarrow> int \<Rightarrow> 'g bot \<Rightarrow> (exn + unit) \<times> 'g bot" where
  "reconcile w smb new_signal s =
     (let formatted_symbol = format_symbol smb in
      case find (\<lambda>order. symbol order = formatted_symbol) (open_orders s) of
        Some existing_order \<Rightarrow>
          (case do_fetch w formatted_symbol s of
             (Inl e, s1) \<Rightarrow> (Inl e, s1)
           | (Inr current_price, s1) \<Rightarrow>
               if conflicting existing_order new_signal
               then (Inr (), place_order w smb (Some new_signal)
                               (close_order w existing_order current_price s1))
               else (Inr (), s1))
      | None \<Rightarrow> (Inr (), place_order w smb (Some new_signal) s))"

definition process_symbol :: "'g world \<Rightarrow> string \<Rightarrow> 'g bot \<Rightarrow> (exn + unit) \<times> 'g bot" where
  "process_symbol w smb s =
     (case signal_for w smb (kucoin s) of
        (None, g) \<Rightarrow> (Inr (), s\<lparr>kucoin := g\<rparr>)
      | (Some new_signal, g) \<Rightarrow> reconcile w smb new_signal (s\<lparr>kucoin := g\<rparr>))"

fun run_symbols :: "'g world \<Rightarrow> string list \<Rightarrow> 'g bot \<Rightarrow> (exn + unit) \<times> 'g bot" where
  "run_symbols w [] s = (Inr (), s)"
| "run_symbols w (smb # rest) s =
     (case process_symbol w smb s of
        (Inl e, s1) \<Rightarrow> (Inl e, s1)
      | (Inr u, s1) \<Rightarrow> run_symbols w rest s1)"

definition run_cycle :: "'g world \<Rightarrow> 'g bot \<Rightarrow> (exn + unit) \<times> 'g bot" where
  "run_cycle w s =
     (case run_symbols w (symbols (config s)) s of
        (Inl e, s1) \<Rightarrow> (Inl e, s1)
      | (Inr u, s1) \<Rightarrow>
          (case monitor_trades w s1 of
             (Inl e, s2) \<Rightarrow> (Inl e, s2)
           | (Inr u, s2) \<Rightarrow> (Inr (), do_sleep w (check_interval (config s2) * 60) s2)))"

text \<open>
  The first \<open>n\<close> iterations of \<^verbatim>\<open>while True\<close> (bot.py:74-142): \<open>Inl e\<close> when an
  exception left the loop, with the state at that moment.
\<close>

fun run :: "'g world \<Rightarrow> nat \<Rightarrow> 'g bot \<Rightarrow> (exn + unit) \<times> 'g bot" where
  "run w 0 s = (Inr (), s)"
| "run w (Suc n) s =
     (case run_cycle w s of
        (Inl e, s1) \<Rightarrow> (Inl e, s1)
      | (Inr u, s1) \<Rightarrow> run w n s1)"

section \<open>Initial state and concrete worlds\<close>

text \<open>OrderManager.__init__ (order_manager.py:10-16): an empty ledger and the shared config.\<close>

definition init_bot :: "bot_config \<Rightarrow> 'g \<Rightarrow> 'g bot" where
  "init_bot cfg g = \<lparr>kucoin = g, open_orders = [], config = cfg, trade_log = [], trace = []\<rparr>"

text \<open>
  A world for running the model on concrete inputs: every ticker fetch gives the same
  result, every opening order and every closing order the same answer, every symbol the
  same signal; the state is the clock in seconds.
\<close>

definition fixed_world :: "(exn + real) \<Rightarrow> bool \<Rightarrow> bool \<Rightarrow> int option \<Rightarrow> int world" where
  "fixed_world ticker opens_ok closes_ok sg =
     \<lparr>fetch_ticker = (\<lambda>smb g. (ticker, g)),
      create_order = (\<lambda>req g.
        (if (if reduce_only req then closes_ok else opens_ok) then Inr () else Inl ExchangeError, g)),
      time_now = (\<lambda>g. g),
      sleep_secs = (\<lambda>n g. g + int n),
      signal_for = (\<lambda>smb g. (sg, g))\<rparr>"

definition demo_config :: bot_config where
  "demo_config =
     \<lparr>symbols = [''ETH-USD''], leverage = 5, investment_amount = 10,
      sl_percentage = 5, tp_percentage = 10, check_interval = 1\<rparr>"

definition demo_long :: position where
  "demo_long =
     \<lparr>symbol = ''ETH/USDT:USDT'', direction = ''buy'', order_size = 1, entry_price = 100,
      stop_loss_price = 95, take_profit_price = 110\<rparr>"

text \<open>The bot as constructed, on the clock 0.\<close>

definition demo_init :: "int bot" where
  "demo_init = init_bot demo_config 0"

text \<open>A bot that holds the one LONG position above.\<close>

definition demo_state :: "int bot" where
  "demo_state = (init_bot demo_config 0)\<lparr>open_orders := [demo_long]\<rparr>"

text \<open>The SHORT position that an open at price 100 adds under the config above.\<close>

definition demo_short :: position where
  "demo_short =
     \<lparr>symbol = ''ETH/USDT:USDT'', direction = ''sell'', order_size = 1, entry_price = 100,
      stop_loss_price = 105, take_profit_price = 90\<rparr>"

text \<open>A second LONG position, of another symbol, and a bot that holds both LONG positions.\<close>

definition demo_long_btc :: position where
  "demo_long_btc =
     \<lparr>symbol = ''BTC/USDT:USDT'', direction = ''buy'', order_size = 2, entry_price = 100,
      stop_loss_price = 95, take_profit_price = 110\<rparr>"

definition demo_two :: "int bot" where
  "demo_two = (init_bot demo_config 0)\<lparr>open_orders := [demo_long, demo_long_btc]\<rparr>"

text \<open>
  A world whose exchange fails after its first \<open>k\<close> ticker fetches: the state counts the
  fetches; every fetch before the outage gives the price 100, every order is accepted and
  every symbol gets the signal BUY.
\<close>

definition outage_world :: "nat \<Rightarrow> nat world" where
  "outage_world k =
     \<lparr>fetch_ticker = (\<lambda>smb g. (if g < k then Inr 100 else Inl ExchangeError, Suc g)),
      create_order = (\<lambda>req g. (Inr (), g)),
      time_now = (\<lambda>g. 0),
      sleep_secs = (\<lambda>n g. g),
      signal_for = (\<lambda>smb g. (Some 1, g))\<rparr>"

section \<open>Predicates of the claims\<close>

text \<open>The ledger holds no two positions with the same symbol and direction.\<close>

definition ledger_ok :: "position list \<Rightarrow> bool" where
  "ledger_ok orders \<longleftrightarrow> distinct (map (\<lambda>order. (symbol order, direction order)) orders)"

text \<open>The positions of the ledger for a formatted symbol, in ledger order.\<close>

definition positions_of :: "string \<Rightarrow> position list \<Rightarrow> position list" where
  "positions_of fs orders = filter (\<lambda>order. symbol order = fs) orders"

text \<open>The events a step appended to the trace.\<close>

definition new_events :: "'g bot \<Rightarrow> 'g bot \<Rightarrow> event list" where
  "new_events s s' = drop (length (trace s)) (trace s')"

fun is_close_attempt :: "event \<Rightarrow> bool" where
  "is_close_attempt (Create_order req ok) = reduce_only req"
| "is_close_attempt (Fetch_ticker smb) = False"
| "is_close_attempt (Sleep n) = False"

fun is_open_attempt :: "event \<Rightarrow> bool" where
  "is_open_attempt (Create_order req ok) = (\<not> reduce_only req)"
| "is_open_attempt (Fetch_ticker smb) = False"
| "is_open_attempt (Sleep n) = False"


text \<open>Every closing (reduce-only) order submission raises.\<close>

definition close_always_raises :: "'g world \<Rightarrow> bool" where
  "close_always_raises w \<longleftrightarrow> (\<forall>req g. reduce_only req \<longrightarrow> isl (fst (create_order w req g)))"

text \<open>
  The state in which a retry loop makes its next submission of \<open>req\<close> after \<open>n\<close>
  rejected ones: each rejected submission is followed by the 5-second sleep.
\<close>

fun retry_state :: "'g world \<Rightarrow> order_req \<Rightarrow> nat \<Rightarrow> 'g bot \<Rightarrow> 'g bot" where
  "retry_state w req 0 s = s"
| "retry_state w req (Suc n) s = retry_state w req n (do_sleep w 5 (snd (do_create w req s)))"


text \<open>The signal source gives only 1 (BUY) and 0 (SELL), as the classifier's labels are.\<close>

definition signals_binary :: "'g world \<Rightarrow> bool" where
  "signals_binary w \<longleftrightarrow>
     (\<forall>smb g sg. fst (signal_for w smb g) = Some sg \<longrightarrow> sg = 0 \<or> sg = 1)"

text \<open>The exchange answers every ticker fetch with a non-zero price and accepts every order.\<close>

definition cooperative :: "'g world \<Rightarrow> bool" where
  "cooperative w \<longleftrightarrow>
     (\<forall>smb g. \<exists>p. fst (fetch_ticker w smb g) = Inr p \<and> p \<noteq> 0) \<and>
     (\<forall>req g. \<not> isl (fst (create_order w req g)))"

text \<open>
  What lines 55-60 of place_order leave when no division by zero occurs: the config and
  the order size, corrected once when the first size is below 1.
\<close>

definition corrected_sizing :: "bot_config \<Rightarrow> real \<Rightarrow> bot_config \<times> real" where
  "corrected_sizing cfg p =
     (if (investment_amount cfg * leverage cfg) / p < 1
      then (cfg\<lparr>investment_amount := of_int \<lceil>p / leverage cfg\<rceil>\<rparr>,
            (of_int \<lceil>p / leverage cfg\<rceil> * leverage cfg) / p)
      else (cfg, (investment_amount cfg * leverage cfg) / p))"

text \<open>
  The position and the order request that place_order builds (order_manager.py:62-95)
  for the formatted symbol, the signal, the config after sizing, the ticker price, the
  order size and the clientOid.
\<close>

definition new_position :: "string \<Rightarrow> int \<Rightarrow> bot_config \<Rightarrow> real \<Rightarrow> real \<Rightarrow> position" where
  "new_position fs sg cfg p sz =
     \<lparr>symbol = fs, direction = (if sg = 1 then ''buy'' else ''sell''),
      order_size = sz, entry_price = p,
      stop_loss_price =
        (if sg = 1 then p * (1 - sl_percentage cfg / 100) else p * (1 + sl_percentage cfg / 100)),
      take_profit_price =
        (if sg = 1 then p * (1 + tp_percentage cfg / 100) else p * (1 - tp_percentage cfg / 100))\<rparr>"

definition new_request :: "string \<Rightarrow> int \<Rightarrow> bot_config \<Rightarrow> real \<Rightarrow> int \<Rightarrow> order_req" where
  "new_request fs sg cfg sz oid =
     \<lparr>req_symbol = fs, req_side = (if sg = 1 then ''buy'' else ''sell''),
      req_amount = sz, req_leverage = Some (leverage cfg), req_client_oid = Some oid,
      reduce_only = False\<rparr>"

section \<open>Frame lemmas\<close>

lemma do_fetch_simps [simp]:
  "fst (do_fetch w smb s) = fst (fetch_ticker w smb (kucoin s))"
  "kucoin (snd (do_fetch w smb s)) = snd (fetch_ticker w smb (kucoin s))"
  "open_orders (snd (do_fetch w smb s)) = open_orders s"
  "config (snd (do_fetch w smb s)) = config s"
  "trade_log (snd (do_fetch w smb s)) = trade_log s"
  "trace (snd (do_fetch w smb s)) = trace s @ [Fetch_ticker smb]"
  by (simp_all add: do_fetch_def split: prod.splits)

lemma do_create_simps [simp]:
  "fst (do_create w req s) = fst (create_order w req (kucoin s))"
  "kucoin (snd (do_create w req s)) = snd (create_order w req (kucoin s))"
  "open_orders (snd (do_create w req s)) = open_orders s"
  "config (snd (do_create w req s)) = config s"
  "trade_log (snd (do_create w req s)) = trade_log s"
  "trace (snd (do_create w req s)) =
     trace s @ [Create_order req (\<not> isl (fst (create_order w req (kucoin s))))]"
  by (simp_all add: do_create_def split: prod.splits)

lemma do_sleep_simps [simp]:
  "kucoin (do_sleep w n s) = sleep_secs w n (kucoin s)"
  "open_orders (do_sleep w n s) = open_orders s"
  "config (do_sleep w n s) = config s"
  "trade_log (do_sleep w n s) = trade_log s"
  "trace (do_sleep w n s) = trace s @ [Sleep n]"
  by (simp_all add: do_sleep_def)

lemma log_trade_simps [simp]:
  "kucoin (log_trade order p s) = kucoin s"
  "open_orders (log_trade order p s) = open_orders s"
  "config (log_trade order p s) = config s"
  "trade_log (log_trade order p s) = trade_log s @ [(order, p)]"
  "trace (log_trade order p s) = trace s"
  by (simp_all add: log_trade_def)

lemma show_loop_frame [simp]:
  "open_orders (show_loop w os s) = open_orders s"
  "config (show_loop w os s) = config s"
  "trade_log (show_loop w os s) = trade_log s"
  "trace (show_loop w os s) = trace s @ map (\<lambda>order. Fetch_ticker (symbol order)) os"
  by (induction os arbitrary: s) simp_all

lemma show_open_trades_frame [simp]:
  "open_orders (show_open_trades w s) = open_orders s"
  "config (show_open_trades w s) = config s"
  "trade_log (show_open_trades w s) = trade_log s"
  "trace (show_open_trades w s) =
     trace s @ map (\<lambda>order. Fetch_ticker (symbol order)) (open_orders s)"
  by (simp_all add: show_open_trades_def)

section \<open>Opening a position: sizing\<close>

lemma order_sizing_value:
  assumes "p \<noteq> 0" and "leverage cfg \<noteq> 0"
  shows "order_sizing cfg p = Inr (corrected_sizing cfg p)"
  using assms by (simp add: order_sizing_def corrected_sizing_def Let_def)

text \<open>
  An open operation with a signal, no open order of the same direction, a ticker with a
  non-zero price and a non-zero leverage reaches the retry loop with the sized order.
\<close>

lemma place_order_submits:
  assumes "\<not> list_ex (same_direction_open (format_symbol smb) sg) (open_orders s)"
    and "fst (fetch_ticker w (format_symbol smb) (kucoin s)) = Inr p"
    and "p \<noteq> 0" and "leverage (config s) \<noteq> 0"
  shows "place_order w smb (Some sg) s =
           place_attempts w 3
             (new_request (format_symbol smb) sg (fst (corrected_sizing (config s) p))
                (snd (corrected_sizing (config s) p))
                (time_now w (kucoin (snd (do_fetch w (format_symbol smb) s)))))
             (new_position (format_symbol smb) sg (fst (corrected_sizing (config s) p)) p
                (snd (corrected_sizing (config s) p)))
             ((snd (do_fetch w (format_symbol smb) s))
                \<lparr>config := fst (corrected_sizing (config s) p)\<rparr>)"
proof -
  obtain g where f: "fetch_ticker w (format_symbol smb) (kucoin s) = (Inr p, g)"
    using assms(2) by (cases "fetch_ticker w (format_symbol smb) (kucoin s)") simp
  obtain cfg' sz where c: "corrected_sizing (config s) p = (cfg', sz)"
    by (cases "corrected_sizing (config s) p")
  have sz: "order_sizing (config s) p = Inr (cfg', sz)"
    using order_sizing_value [OF assms(3,4)] c by simp
  show ?thesis
    using assms(1) f sz c
    by (simp add: place_order_def do_fetch_def Let_def new_request_def new_position_def)
qed

section \<open>Opening a position: retries\<close>

lemma three_rounds: "concat (replicate 3 [a, b]) = [a, b, a, b, a, b]"
  by (simp add: numeral_3_eq_3)


lemma place_attempts_Suc:
  "place_attempts w (Suc n) req pos s =
     (if isl (fst (do_create w req s))
      then place_attempts w n req pos (do_sleep w 5 (snd (do_create w req s)))
      else show_open_trades w ((snd (do_create w req s))
             \<lparr>open_orders := open_orders (snd (do_create w req s)) @ [pos]\<rparr>))"
proof (cases "do_create w req s")
  case (Pair r s1)
  then show ?thesis by (cases r) simp_all
qed

declare place_attempts.simps(2) [simp del]

lemma place_order_Some:
  "place_order w smb (Some sg) s =
     (if list_ex (same_direction_open (format_symbol smb) sg) (open_orders s) then s
      else case fst (fetch_ticker w (format_symbol smb) (kucoin s)) of
        Inl e \<Rightarrow> snd (do_fetch w (format_symbol smb) s)
      | Inr p \<Rightarrow>
          (case order_sizing (config s) p of
             Inl e \<Rightarrow> snd (do_fetch w (format_symbol smb) s)
           | Inr c \<Rightarrow>
               place_attempts w 3
                 (new_request (format_symbol smb) sg (fst c) (snd c)
                    (time_now w (kucoin (snd (do_fetch w (format_symbol smb) s)))))
                 (new_position (format_symbol smb) sg (fst c) p (snd c))
                 ((snd (do_fetch w (format_symbol smb) s))\<lparr>config := fst c\<rparr>)))"
proof (cases "fetch_ticker w (format_symbol smb) (kucoin s)")
  case (Pair r g)
  then show ?thesis
    by (cases r)
       (simp_all add: place_order_def do_fetch_def Let_def new_request_def new_position_def
          split: sum.splits prod.splits)
qed

lemma place_attempts_frame [simp]:
  "config (place_attempts w n req pos s) = config s"
  "trade_log (place_attempts w n req pos s) = trade_log s"
  by (induction n arbitrary: s) (simp_all add: place_attempts_Suc)

lemma place_attempts_ledger:
  "open_orders (place_attempts w n req pos s) = open_orders s \<or>
   open_orders (place_attempts w n req pos s) = open_orders s @ [pos]"
proof (induction n arbitrary: s)
  case 0
  show ?case by simp
next
  case (Suc n)
  show ?case
  proof (cases "fst (do_create w req s)")
    case (Inl e)
    then have "place_attempts w (Suc n) req pos s =
        place_attempts w n req pos (do_sleep w 5 (snd (do_create w req s)))"
      using place_attempts_Suc [of w n req pos s] by simp
    then show ?thesis using Suc.IH [of "do_sleep w 5 (snd (do_create w req s))"] by simp
  next
    case (Inr u)
    then have "place_attempts w (Suc n) req pos s =
        show_open_trades w ((snd (do_create w req s))
          \<lparr>open_orders := open_orders (snd (do_create w req s)) @ [pos]\<rparr>)"
      using place_attempts_Suc [of w n req pos s] by simp
    then show ?thesis by simp
  qed
qed

lemma place_attempts_trace:
  "\<exists>evs. trace (place_attempts w n req pos s) = trace s @ evs"
proof (induction n arbitrary: s)
  case 0
  show ?case by simp
next
  case (Suc n)
  show ?case
  proof (cases "fst (do_create w req s)")
    case (Inl e)
    then have "place_attempts w (Suc n) req pos s =
        place_attempts w n req pos (do_sleep w 5 (snd (do_create w req s)))"
      using place_attempts_Suc [of w n req pos s] by simp
    then show ?thesis using Suc.IH [of "do_sleep w 5 (snd (do_create w req s))"] by auto
  next
    case (Inr u)
    then have "place_attempts w (Suc n) req pos s =
        show_open_trades w ((snd (do_create w req s))
          \<lparr>open_orders := open_orders (snd (do_create w req s)) @ [pos]\<rparr>)"
      using place_attempts_Suc [of w n req pos s] by simp
    then show ?thesis by simp
  qed
qed

text \<open>
  The outcomes of place_order with a signal: either nothing but a ticker fetch happened
  (ledger and config as before), or the order was sized from a ticker price and the
  ledger is as before or longer by the new position.
\<close>

lemma place_order_cases:
  assumes "s' = place_order w smb (Some sg) s"
  obtains (unchanged) "open_orders s' = open_orders s" and "config s' = config s"
  | (sized) p cfg' sz where
      "\<not> list_ex (same_direction_open (format_symbol smb) sg) (open_orders s)"
      and "fst (fetch_ticker w (format_symbol smb) (kucoin s)) = Inr p"
      and "order_sizing (config s) p = Inr (cfg', sz)"
      and "config s' = cfg'"
      and "open_orders s' = open_orders s \<or>
           open_orders s' = open_orders s @ [new_position (format_symbol smb) sg cfg' p sz]"
proof (cases "list_ex (same_direction_open (format_symbol smb) sg) (open_orders s)")
  case True
  then have "s' = s" using assms by (simp add: place_order_def)
  then show ?thesis using unchanged by simp
next
  case nodup: False
  obtain r g where f: "fetch_ticker w (format_symbol smb) (kucoin s) = (r, g)"
    by (cases "fetch_ticker w (format_symbol smb) (kucoin s)")
  show ?thesis
  proof (cases r)
    case (Inl e)
    then have "s' = snd (do_fetch w (format_symbol smb) s)"
      using assms nodup f by (simp add: place_order_def do_fetch_def)
    then show ?thesis using unchanged by simp
  next
    case (Inr p)
    show ?thesis
    proof (cases "order_sizing (config s) p")
      case (Inl e)
      then have "s' = snd (do_fetch w (format_symbol smb) s)"
        using assms nodup f \<open>r = Inr p\<close> by (simp add: place_order_def do_fetch_def)
      then show ?thesis using unchanged by simp
    next
      case sz: (Inr c)
      obtain cfg' sz where c: "c = (cfg', sz)" by (cases c)
      have eq: "s' = place_attempts w 3
          (new_request (format_symbol smb) sg cfg' sz
             (time_now w (kucoin (snd (do_fetch w (format_symbol smb) s)))))
          (new_position (format_symbol smb) sg cfg' p sz)
          ((snd (do_fetch w (format_symbol smb) s))\<lparr>config := cfg'\<rparr>)"
        using assms nodup f \<open>r = Inr p\<close> sz c
        by (simp add: place_order_def do_fetch_def Let_def new_request_def new_position_def)
      have "config s' = cfg'" unfolding eq by simp
      moreover have "open_orders s' = open_orders s \<or>
          open_orders s' = open_orders s @ [new_position (format_symbol smb) sg cfg' p sz]"
        using place_attempts_ledger [of w 3 _ "new_position (format_symbol smb) sg cfg' p sz"
            "(snd (do_fetch w (format_symbol smb) s))\<lparr>config := cfg'\<rparr>"]
        unfolding eq by simp
      ultimately show ?thesis
        using sized [of p cfg' sz] nodup f \<open>r = Inr p\<close> sz c by simp
    qed
  qed
qed

lemma place_order_trace:
  "\<exists>evs. trace (place_order w smb sig s) = trace s @ evs"
proof (cases sig)
  case None
  then show ?thesis by (simp add: place_order_def)
next
  case (Some sg)
  let ?s1 = "snd (do_fetch w (format_symbol smb) s)"
  have att: "\<exists>evs. trace (place_attempts w 3 req pos (?s1\<lparr>config := c\<rparr>)) = trace s @ evs"
    for req pos c
    using place_attempts_trace [of w 3 req pos "?s1\<lparr>config := c\<rparr>"] by auto
  show ?thesis
    unfolding Some place_order_Some
    by (auto split: sum.splits intro: att)
qed

lemma place_order_None [simp]: "place_order w smb None s = s"
  by (simp add: place_order_def)

lemma place_order_trade_log [simp]:
  "trade_log (place_order w smb sig s) = trade_log s"
  by (cases sig) (simp_all add: place_order_Some split: sum.splits)



section \<open>Closing a position\<close>

lemma close_attempts_Suc:
  "close_attempts w (Suc n) order p s =
     (if isl (fst (do_create w (close_req order) s))
      then close_attempts w n order p (do_sleep w 5 (snd (do_create w (close_req order) s)))
      else if order \<in> set (open_orders s)
      then (log_trade order p (snd (do_create w (close_req order) s)))
             \<lparr>open_orders := remove1 order (open_orders s)\<rparr>
      else close_attempts w n order p
             (do_sleep w 5 (log_trade order p (snd (do_create w (close_req order) s)))))"
proof (cases "do_create w (close_req order) s")
  case (Pair r s1)
  then have "open_orders s1 = open_orders s"
    using do_create_simps(3) [of w "close_req order" s] by simp
  with Pair show ?thesis by (cases r) (simp_all add: Let_def)
qed

declare close_attempts.simps(2) [simp del]

lemma close_attempts_config [simp]:
  "config (close_attempts w n order p s) = config s"
  by (induction n arbitrary: s) (simp_all add: close_attempts_Suc)

lemma close_order_config [simp]: "config (close_order w order p s) = config s"
  by (simp add: close_order_def)

lemma retry_state_frame [simp]:
  "open_orders (retry_state w req n s) = open_orders s"
  "config (retry_state w req n s) = config s"
  "trade_log (retry_state w req n s) = trade_log s"
  by (induction n arbitrary: s) simp_all









section \<open>Reconciliation of a conflicting signal\<close>

lemma close_attempts_trace:
  "\<exists>evs. trace (close_attempts w n order p s) = trace s @ evs"
proof (induction n arbitrary: s)
  case 0
  show ?case by simp
next
  case (Suc n)
  let ?s1 = "snd (do_create w (close_req order) s)"
  obtain evs1 where e1: "trace (close_attempts w n order p (do_sleep w 5 ?s1)) =
      trace (do_sleep w 5 ?s1) @ evs1"
    using Suc.IH by blast
  obtain evs2 where e2: "trace (close_attempts w n order p (do_sleep w 5 (log_trade order p ?s1))) =
      trace (do_sleep w 5 (log_trade order p ?s1)) @ evs2"
    using Suc.IH by blast
  show ?case
    by (simp add: close_attempts_Suc e1 e2)
qed

lemma close_attempts_first_event:
  "\<exists>ok evs. trace (close_attempts w (Suc n) order p s) =
     trace s @ Create_order (close_req order) ok # evs"
proof -
  let ?s1 = "snd (do_create w (close_req order) s)"
  obtain evs1 where e1: "trace (close_attempts w n order p (do_sleep w 5 ?s1)) =
      trace (do_sleep w 5 ?s1) @ evs1"
    using close_attempts_trace by blast
  obtain evs2 where e2: "trace (close_attempts w n order p (do_sleep w 5 (log_trade order p ?s1))) =
      trace (do_sleep w 5 (log_trade order p ?s1)) @ evs2"
    using close_attempts_trace by blast
  show ?thesis
    by (auto simp: close_attempts_Suc e1 e2)
qed

lemma close_attempts_all_fail:
  assumes "close_always_raises w"
  shows "open_orders (close_attempts w n order p s) = open_orders s \<and>
         trade_log (close_attempts w n order p s) = trade_log s \<and>
         trace (close_attempts w n order p s) =
           trace s @ concat (replicate n [Create_order (close_req order) False, Sleep 5])"
proof (induction n arbitrary: s)
  case 0
  show ?case by simp
next
  case (Suc n)
  have "isl (fst (create_order w (close_req order) (kucoin s)))"
    using assms by (simp add: close_always_raises_def close_req_def)
  then show ?case by (simp add: close_attempts_Suc Suc.IH)
qed

lemma place_order_keeps:
  "set (open_orders s) \<subseteq> set (open_orders (place_order w smb sig s))"
proof (cases sig)
  case None
  then show ?thesis by simp
next
  case (Some sg)
  show ?thesis
    by (rule place_order_cases [of "place_order w smb sig s" w smb sg s])
       (auto simp: Some)
qed

lemma reconcile_conflict:
  assumes "find (\<lambda>order. symbol order = format_symbol smb) (open_orders s) = Some ex"
    and "conflicting ex sg"
    and "fst (fetch_ticker w (format_symbol smb) (kucoin s)) = Inr p"
  shows "reconcile w smb sg s =
           (Inr (), place_order w smb (Some sg)
                      (close_order w ex p (snd (do_fetch w (format_symbol smb) s))))"
proof (cases "fetch_ticker w (format_symbol smb) (kucoin s)")
  case (Pair r g)
  then show ?thesis using assms by (simp add: reconcile_def do_fetch_def)
qed

text \<open>
  C1 (the claim as stated fails). The ledger holds one LONG position of ETH/USDT:USDT, the
  signal is SELL, the exchange rejects every closing order and accepts opening orders.
  After the price check the close is attempted three times and fails; then the open is
  attempted all the same and accepted, and the ledger holds the LONG and a new SHORT.
\<close>

theorem C1_open_after_failed_close:
  "new_events demo_state
     (snd (reconcile (fixed_world (Inr 100) True False None) ''ETH-USD'' 0 demo_state)) =
     [Fetch_ticker ''ETH/USDT:USDT'',
      Create_order (close_req demo_long) False, Sleep 5,
      Create_order (close_req demo_long) False, Sleep 5,
      Create_order (close_req demo_long) False, Sleep 5,
      Fetch_ticker ''ETH/USDT:USDT'',
      Create_order \<lparr>req_symbol = ''ETH/USDT:USDT'', req_side = ''sell'', req_amount = 1,
                    req_leverage = Some 5, req_client_oid = Some 15, reduce_only = False\<rparr> True,
      Fetch_ticker ''ETH/USDT:USDT'', Fetch_ticker ''ETH/USDT:USDT''] \<and>
   list_ex is_open_attempt (new_events demo_state
     (snd (reconcile (fixed_world (Inr 100) True False None) ''ETH-USD'' 0 demo_state))) \<and>
   open_orders (snd (reconcile (fixed_world (Inr 100) True False None) ''ETH-USD'' 0 demo_state)) =
     [demo_long,
      \<lparr>symbol = ''ETH/USDT:USDT'', direction = ''sell'', order_size = 1, entry_price = 100,
       stop_loss_price = 105, take_profit_price = 90\<rparr>]"
  by code_simp

text \<open>
  C1 (amended). When the first ledger entry of the symbol conflicts with the signal and
  the price check returns, run calls close_order and then place_order, whatever the close
  did: the first order submission after the price check is the closing order of that
  entry, so the close is attempted before any open. When every closing order is rejected,
  the close makes its three attempts, leaves the ledger as it was, and the original
  position is still in the ledger after place_order.
\<close>

theorem C1_close_before_open:
  assumes "find (\<lambda>order. symbol order = format_symbol smb) (open_orders s) = Some ex"
    and "conflicting ex sg"
    and "fst (fetch_ticker w (format_symbol smb) (kucoin s)) = Inr p"
  shows "snd (reconcile w smb sg s) =
           place_order w smb (Some sg)
             (close_order w ex p (snd (do_fetch w (format_symbol smb) s))) \<and>
         (\<exists>ok evs. new_events s (snd (reconcile w smb sg s)) =
            Fetch_ticker (format_symbol smb) # Create_order (close_req ex) ok # evs) \<and>
         (close_always_raises w \<longrightarrow>
            new_events s (close_order w ex p (snd (do_fetch w (format_symbol smb) s))) =
              [Fetch_ticker (format_symbol smb),
               Create_order (close_req ex) False, Sleep 5,
               Create_order (close_req ex) False, Sleep 5,
               Create_order (close_req ex) False, Sleep 5] \<and>
            open_orders (close_order w ex p (snd (do_fetch w (format_symbol smb) s))) =
              open_orders s \<and>
            ex \<in> set (open_orders (snd (reconcile w smb sg s))))"
proof -
  let ?s1 = "snd (do_fetch w (format_symbol smb) s)"
  let ?s2 = "close_order w ex p ?s1"
  have rec: "snd (reconcile w smb sg s) = place_order w smb (Some sg) ?s2"
    using reconcile_conflict [OF assms] by simp
  obtain ok evs where c: "trace ?s2 = trace ?s1 @ Create_order (close_req ex) ok # evs"
    unfolding close_order_def numeral_3_eq_3 using close_attempts_first_event by blast
  obtain evs' where o: "trace (place_order w smb (Some sg) ?s2) = trace ?s2 @ evs'"
    using place_order_trace by blast
  have first: "new_events s (snd (reconcile w smb sg s)) =
      Fetch_ticker (format_symbol smb) # Create_order (close_req ex) ok # (evs @ evs')"
    unfolding rec new_events_def o c by simp
  have mem: "ex \<in> set (open_orders s)"
    using assms(1) by (auto simp: find_Some_iff)
  have fail: "new_events s ?s2 =
          [Fetch_ticker (format_symbol smb),
           Create_order (close_req ex) False, Sleep 5,
           Create_order (close_req ex) False, Sleep 5,
           Create_order (close_req ex) False, Sleep 5] \<and>
        open_orders ?s2 = open_orders s \<and>
        ex \<in> set (open_orders (snd (reconcile w smb sg s)))"
    if r: "close_always_raises w"
  proof -
    have a: "trace ?s2 =
        trace ?s1 @ concat (replicate 3 [Create_order (close_req ex) False, Sleep 5])"
      and b: "open_orders ?s2 = open_orders ?s1"
      unfolding close_order_def using close_attempts_all_fail [OF r, of 3 ex p ?s1] by simp_all
    have "ex \<in> set (open_orders ?s2)" using b mem by simp
    then have "ex \<in> set (open_orders (snd (reconcile w smb sg s)))"
      unfolding rec using place_order_keeps [of ?s2 w smb "Some sg"] by blast
    then show ?thesis
      using a b by (simp add: new_events_def three_rounds)
  qed
  show ?thesis using rec first fail by blast
qed

theorem C1_close_before_open_witness:
  "find (\<lambda>order. symbol order = format_symbol ''ETH-USD'') (open_orders demo_state) =
     Some demo_long \<and>
   conflicting demo_long 0 \<and>
   close_always_raises (fixed_world (Inr 100) True False None) \<and>
   demo_long \<in> set (open_orders
     (snd (reconcile (fixed_world (Inr 100) True False None) ''ETH-USD'' 0 demo_state)))"
proof -
  have h1: "find (\<lambda>order. symbol order = format_symbol ''ETH-USD'') (open_orders demo_state) =
      Some demo_long"
    by (simp add: demo_state_def init_bot_def demo_long_def format_symbol_def)
  have h2: "conflicting demo_long 0"
    by (simp add: conflicting_def demo_long_def)
  have h3: "fst (fetch_ticker (fixed_world (Inr 100) True False None)
      (format_symbol ''ETH-USD'') (kucoin demo_state)) = Inr 100"
    by (simp add: fixed_world_def)
  have h4: "close_always_raises (fixed_world (Inr 100) True False None)"
    by (simp add: close_always_raises_def fixed_world_def)
  from C1_close_before_open [OF h1 h2 h3] h4 h1 h2 show ?thesis by blast
qed

section \<open>Reconciliation of an agreeing signal\<close>

text \<open>
  C7 (the claim as stated fails). run looks up the first ledger entry of the symbol
  (bot.py:113-116) and compares only that entry with the signal. After a SELL whose close
  was rejected, the ledger holds the LONG and the SHORT of ETH/USDT:USDT. On the next
  SELL, with the exchange accepting, the SHORT agrees with the signal, yet the LONG is
  found first, its closing order is submitted and accepted, and the ledger changes.
\<close>

theorem C7_agreeing_entry_not_first:
  "open_orders (snd (reconcile (fixed_world (Inr 100) True False None) ''ETH-USD'' 0 demo_state)) =
     [demo_long, demo_short] \<and>
   direction demo_short = ''sell'' \<and> symbol demo_short = format_symbol ''ETH-USD'' \<and>
   new_events (snd (reconcile (fixed_world (Inr 100) True False None) ''ETH-USD'' 0 demo_state))
     (snd (reconcile (fixed_world (Inr 100) True True None) ''ETH-USD'' 0
        (snd (reconcile (fixed_world (Inr 100) True False None) ''ETH-USD'' 0 demo_state)))) =
     [Fetch_ticker ''ETH/USDT:USDT'', Create_order (close_req demo_long) True] \<and>
   open_orders
     (snd (reconcile (fixed_world (Inr 100) True True None) ''ETH-USD'' 0
        (snd (reconcile (fixed_world (Inr 100) True False None) ''ETH-USD'' 0 demo_state)))) =
     [demo_short]"
  by code_simp

text \<open>
  C7 (amended). When the ledger entry that run finds for the symbol, the first one with
  that symbol, has the direction of the new signal (LONG with BUY, SHORT with SELL),
  reconciliation makes one exchange call, the price check of bot.py:124, submits no
  order, and leaves the ledger, the trade log and the config unchanged; this also holds
  when the price check raises.
\<close>

theorem C7_idempotent_hold:
  assumes "find (\<lambda>order. symbol order = format_symbol smb) (open_orders s) = Some ex"
    and "(direction ex = ''buy'' \<and> sg = 1) \<or> (direction ex = ''sell'' \<and> sg = 0)"
  shows "new_events s (snd (reconcile w smb sg s)) = [Fetch_ticker (format_symbol smb)] \<and>
         open_orders (snd (reconcile w smb sg s)) = open_orders s \<and>
         trade_log (snd (reconcile w smb sg s)) = trade_log s \<and>
         config (snd (reconcile w smb sg s)) = config s"
proof -
  have nc: "\<not> conflicting ex sg"
    using assms(2) by (auto simp: conflicting_def)
  have "snd (reconcile w smb sg s) = snd (do_fetch w (format_symbol smb) s)"
  proof (cases "fetch_ticker w (format_symbol smb) (kucoin s)")
    case (Pair r g)
    then show ?thesis
      using assms(1) nc by (cases r) (simp_all add: reconcile_def do_fetch_def)
  qed
  then show ?thesis by (simp add: new_events_def)
qed

theorem C7_idempotent_hold_witness:
  "find (\<lambda>order. symbol order = format_symbol ''ETH-USD'') (open_orders demo_state) =
     Some demo_long \<and>
   ((direction demo_long = ''buy'' \<and> (1::int) = 1) \<or> (direction demo_long = ''sell'' \<and> (1::int) = 0)) \<and>
   new_events demo_state
     (snd (reconcile (fixed_world (Inr 100) True True None) ''ETH-USD'' 1 demo_state)) =
     [Fetch_ticker (format_symbol ''ETH-USD'')] \<and>
   open_orders (snd (reconcile (fixed_world (Inr 100) True True None) ''ETH-USD'' 1 demo_state)) =
     open_orders demo_state"
proof -
  have h1: "find (\<lambda>order. symbol order = format_symbol ''ETH-USD'') (open_orders demo_state) =
      Some demo_long"
    by (simp add: demo_state_def init_bot_def demo_long_def format_symbol_def)
  have h2: "(direction demo_long = ''buy'' \<and> (1::int) = 1) \<or>
      (direction demo_long = ''sell'' \<and> (1::int) = 0)"
    by (simp add: demo_long_def)
  from C7_idempotent_hold [OF h1 h2, of "fixed_world (Inr 100) True True None"] h1 h2
  show ?thesis by blast
qed

section \<open>The exit monitor\<close>

lemma close_order_attempted:
  "list_ex is_close_attempt (new_events s (close_order w order p (snd (do_fetch w smb s))))"
proof -
  obtain ok evs where "trace (close_order w order p (snd (do_fetch w smb s))) =
      trace (snd (do_fetch w smb s)) @ Create_order (close_req order) ok # evs"
    unfolding close_order_def numeral_3_eq_3 using close_attempts_first_event by blast
  then show ?thesis by (simp add: new_events_def close_req_def)
qed

lemma monitor_one_fetched:
  assumes "fst (fetch_ticker w (symbol order) (kucoin s)) = Inr p"
  shows "monitor_one w order s =
           (Inr (), if exit_hit order p
                    then close_order w order p (snd (do_fetch w (symbol order) s))
                    else snd (do_fetch w (symbol order) s))"
proof (cases "fetch_ticker w (symbol order) (kucoin s)")
  case (Pair r g)
  then show ?thesis using assms by (simp add: monitor_one_def do_fetch_def)
qed

lemma monitor_one_closes_iff:
  assumes "fst (fetch_ticker w (symbol order) (kucoin s)) = Inr p"
  shows "list_ex is_close_attempt (new_events s (snd (monitor_one w order s))) \<longleftrightarrow>
           exit_hit order p"
  using close_order_attempted [of s w order p "symbol order"]
  by (simp add: monitor_one_fetched [OF assms]) (simp add: new_events_def)

lemma monitor_one_proj:
  "monitor_one w order s =
     (case fst (fetch_ticker w (symbol order) (kucoin s)) of
        Inl e \<Rightarrow> (Inl e, snd (do_fetch w (symbol order) s))
      | Inr p \<Rightarrow>
          (Inr (), if exit_hit order p
                   then close_order w order p (snd (do_fetch w (symbol order) s))
                   else snd (do_fetch w (symbol order) s)))"
proof (cases "fetch_ticker w (symbol order) (kucoin s)")
  case (Pair r g)
  then show ?thesis by (cases r) (simp_all add: monitor_one_def do_fetch_def)
qed

lemma monitor_loop_Cons:
  "monitor_loop w (order # rest) s =
     (if isl (fst (monitor_one w order s)) then monitor_one w order s
      else monitor_loop w rest (snd (monitor_one w order s)))"
proof (cases "monitor_one w order s")
  case (Pair r s1)
  then show ?thesis by (cases r) simp_all
qed

declare monitor_loop.simps(2) [simp del]

lemma monitor_example:
  "open_orders (snd (monitor_trades (fixed_world (Inr 94) True True None) demo_state)) = [] \<and>
   open_orders (snd (monitor_trades (fixed_world (Inr 111) True True None) demo_state)) = [] \<and>
   open_orders (snd (monitor_trades (fixed_world (Inr 100) True True None) demo_state)) =
     [demo_long]"
  by code_simp

lemma monitor_loop_append:
  "monitor_loop w (pre @ rest) s =
     (if isl (fst (monitor_loop w pre s)) then monitor_loop w pre s
      else monitor_loop w rest (snd (monitor_loop w pre s)))"
  by (induction pre arbitrary: s) (simp_all add: monitor_loop_Cons)

lemma monitor_one_trace:
  "\<exists>evs. trace (snd (monitor_one w order s)) = trace s @ evs"
proof -
  have "\<exists>evs. trace (close_order w order p (snd (do_fetch w (symbol order) s))) = trace s @ evs"
    for p
    using close_attempts_trace [of w 3 order p "snd (do_fetch w (symbol order) s)"]
    by (auto simp: close_order_def)
  then show ?thesis by (simp add: monitor_one_proj split: sum.splits)
qed

lemma monitor_loop_trace:
  "\<exists>evs. trace (snd (monitor_loop w os s)) = trace s @ evs"
proof (induction os arbitrary: s)
  case Nil
  show ?case by simp
next
  case (Cons order rest)
  obtain a where a: "trace (snd (monitor_one w order s)) = trace s @ a"
    using monitor_one_trace by blast
  obtain b where b: "trace (snd (monitor_loop w rest (snd (monitor_one w order s)))) =
      trace (snd (monitor_one w order s)) @ b"
    using Cons.IH by blast
  show ?case by (simp add: monitor_loop_Cons a b)
qed

lemma monitor_trades_trace:
  "\<exists>evs. trace (snd (monitor_trades w s)) = trace (snd (monitor_loop w (open_orders s) s)) @ evs"
proof (cases "monitor_loop w (open_orders s) s")
  case (Pair r s1)
  then show ?thesis by (cases r) (simp_all add: monitor_trades_def)
qed

lemma monitor_sweep_example:
  "open_orders (snd (monitor_trades (fixed_world (Inr 94) True True None) demo_two)) = [] \<and>
   open_orders (snd (monitor_trades (fixed_world (Inr 111) True True None) demo_two)) = [] \<and>
   open_orders (snd (monitor_trades (fixed_world (Inr 100) True True None) demo_two)) =
     [demo_long, demo_long_btc]"
  by code_simp

text \<open>
  C5. The exit monitor sweeps the ledger as it was when the sweep began. For every
  position of that ledger, when the sweep of the positions before it has returned and
  its own ticker fetch returns the price \<open>p\<close>, the step of the monitor at this position
  is part of the sweep, and it attempts a close exactly when, for direction
  \<^verbatim>\<open>'buy'\<close>, \<open>p \<le> stop_loss_price\<close> or \<open>p \<ge> take_profit_price\<close>, and for direction
  \<^verbatim>\<open>'sell'\<close>, \<open>p \<ge> stop_loss_price\<close> or \<open>p \<le> take_profit_price\<close>. When it does, the
  step is close_order on that position at that price, and its events are the fetch
  followed by the closing order of that position; when it does not, the fetch is its only
  event. The LONG with entry 100, stop loss 95 and take profit 110 is closed (and, the
  exchange accepting, removed) at 94 and at 111 and kept at 100, alone in the ledger or
  together with a second such LONG of another symbol.
\<close>

theorem C5_exit_trigger:
  assumes "open_orders s = pre @ order # post"
    and "monitor_loop w pre s = (Inr (), t)"
    and "fst (fetch_ticker w (symbol order) (kucoin t)) = Inr p"
  shows "(direction order = ''buy'' \<longrightarrow>
            (list_ex is_close_attempt (new_events t (snd (monitor_one w order t))) \<longleftrightarrow>
               p \<le> stop_loss_price order \<or> p \<ge> take_profit_price order)) \<and>
         (direction order = ''sell'' \<longrightarrow>
            (list_ex is_close_attempt (new_events t (snd (monitor_one w order t))) \<longleftrightarrow>
               p \<ge> stop_loss_price order \<or> p \<le> take_profit_price order)) \<and>
         (list_ex is_close_attempt (new_events t (snd (monitor_one w order t))) \<longrightarrow>
            snd (monitor_one w order t) =
              close_order w order p (snd (do_fetch w (symbol order) t)) \<and>
            (\<exists>ok evs. new_events t (snd (monitor_one w order t)) =
               Fetch_ticker (symbol order) # Create_order (close_req order) ok # evs)) \<and>
         (\<not> list_ex is_close_attempt (new_events t (snd (monitor_one w order t))) \<longrightarrow>
            new_events t (snd (monitor_one w order t)) = [Fetch_ticker (symbol order)]) \<and>
         monitor_loop w (open_orders s) s = monitor_loop w post (snd (monitor_one w order t)) \<and>
         (\<exists>evs. new_events s (snd (monitor_trades w s)) =
            new_events s t @ new_events t (snd (monitor_one w order t)) @ evs) \<and>
         open_orders (snd (monitor_trades (fixed_world (Inr 94) True True None) demo_state)) = [] \<and>
         open_orders (snd (monitor_trades (fixed_world (Inr 111) True True None) demo_state)) = [] \<and>
         open_orders (snd (monitor_trades (fixed_world (Inr 100) True True None) demo_state)) =
           [demo_long] \<and>
         open_orders (snd (monitor_trades (fixed_world (Inr 94) True True None) demo_two)) = [] \<and>
         open_orders (snd (monitor_trades (fixed_world (Inr 111) True True None) demo_two)) = [] \<and>
         open_orders (snd (monitor_trades (fixed_world (Inr 100) True True None) demo_two)) =
           [demo_long, demo_long_btc]"
proof -
  let ?t1 = "snd (do_fetch w (symbol order) t)"
  let ?u = "snd (monitor_one w order t)"
  have iff: "list_ex is_close_attempt (new_events t ?u) \<longleftrightarrow> exit_hit order p"
    by (rule monitor_one_closes_iff [OF assms(3)])
  have buy: "direction order = ''buy'' \<longrightarrow>
      (list_ex is_close_attempt (new_events t ?u) \<longleftrightarrow>
         p \<le> stop_loss_price order \<or> p \<ge> take_profit_price order)"
    unfolding iff by (simp add: exit_hit_def)
  have sell: "direction order = ''sell'' \<longrightarrow>
      (list_ex is_close_attempt (new_events t ?u) \<longleftrightarrow>
         p \<ge> stop_loss_price order \<or> p \<le> take_profit_price order)"
    unfolding iff by (simp add: exit_hit_def)
  have hit: "list_ex is_close_attempt (new_events t ?u) \<longrightarrow>
      ?u = close_order w order p ?t1 \<and>
      (\<exists>ok evs. new_events t ?u =
         Fetch_ticker (symbol order) # Create_order (close_req order) ok # evs)"
  proof
    assume "list_ex is_close_attempt (new_events t ?u)"
    then have e: "exit_hit order p" using iff by simp
    then have u: "?u = close_order w order p ?t1"
      by (simp add: monitor_one_fetched [OF assms(3)])
    obtain ok evs where "trace (close_order w order p ?t1) =
        trace ?t1 @ Create_order (close_req order) ok # evs"
      unfolding close_order_def numeral_3_eq_3 using close_attempts_first_event by blast
    then have "new_events t ?u =
        Fetch_ticker (symbol order) # Create_order (close_req order) ok # evs"
      unfolding u by (simp add: new_events_def)
    with u show "?u = close_order w order p ?t1 \<and>
      (\<exists>ok evs. new_events t ?u =
         Fetch_ticker (symbol order) # Create_order (close_req order) ok # evs)"
      by blast
  qed
  have miss: "\<not> list_ex is_close_attempt (new_events t ?u) \<longrightarrow>
      new_events t ?u = [Fetch_ticker (symbol order)]"
  proof
    assume "\<not> list_ex is_close_attempt (new_events t ?u)"
    then have "\<not> exit_hit order p" using iff by simp
    then have "?u = ?t1" by (simp add: monitor_one_fetched [OF assms(3)])
    then show "new_events t ?u = [Fetch_ticker (symbol order)]"
      by (simp add: new_events_def)
  qed
  have one: "\<not> isl (fst (monitor_one w order t))"
    by (simp add: monitor_one_fetched [OF assms(3)])
  have loop: "monitor_loop w (open_orders s) s = monitor_loop w post ?u"
    unfolding assms(1) monitor_loop_append using assms(2) one
    by (simp add: monitor_loop_Cons)
  obtain a where a: "trace t = trace s @ a"
    using monitor_loop_trace [of w pre s] assms(2) by auto
  obtain b where b: "trace ?u = trace t @ b"
    using monitor_one_trace by blast
  obtain c where c: "trace (snd (monitor_loop w post ?u)) = trace ?u @ c"
    using monitor_loop_trace by blast
  obtain d where d: "trace (snd (monitor_trades w s)) =
      trace (snd (monitor_loop w (open_orders s) s)) @ d"
    using monitor_trades_trace by blast
  have "new_events s (snd (monitor_trades w s)) = new_events s t @ new_events t ?u @ (c @ d)"
    by (simp add: new_events_def d loop c b a)
  then have sweep: "\<exists>evs. new_events s (snd (monitor_trades w s)) =
      new_events s t @ new_events t ?u @ evs"
    by blast
  show ?thesis
    by (intro conjI buy sell hit miss loop sweep monitor_example [THEN conjunct1]
        monitor_example [THEN conjunct2, THEN conjunct1]
        monitor_example [THEN conjunct2, THEN conjunct2]
        monitor_sweep_example [THEN conjunct1]
        monitor_sweep_example [THEN conjunct2, THEN conjunct1]
        monitor_sweep_example [THEN conjunct2, THEN conjunct2])
qed

theorem C5_exit_trigger_witness:
  "open_orders demo_two = [demo_long] @ demo_long_btc # [] \<and>
   fst (monitor_loop (fixed_world (Inr 94) True True None) [demo_long] demo_two) = Inr () \<and>
   direction demo_long_btc = ''buy'' \<and> 94 \<le> stop_loss_price demo_long_btc \<and>
   list_ex is_close_attempt
     (new_events (snd (monitor_loop (fixed_world (Inr 94) True True None) [demo_long] demo_two))
        (snd (monitor_one (fixed_world (Inr 94) True True None) demo_long_btc
           (snd (monitor_loop (fixed_world (Inr 94) True True None) [demo_long] demo_two)))))"
proof -
  let ?w = "fixed_world (Inr 94) True True None"
  let ?t = "snd (monitor_loop ?w [demo_long] demo_two)"
  have h1: "open_orders demo_two = [demo_long] @ demo_long_btc # []"
    by (simp add: demo_two_def)
  have f: "fst (monitor_loop ?w [demo_long] demo_two) = Inr ()"
    by code_simp
  then have h2: "monitor_loop ?w [demo_long] demo_two = (Inr (), ?t)"
    by (simp add: prod_eq_iff)
  have h3: "fst (fetch_ticker ?w (symbol demo_long_btc) (kucoin ?t)) = Inr 94"
    by (simp add: fixed_world_def)
  have d: "direction demo_long_btc = ''buy''" and sl: "94 \<le> stop_loss_price demo_long_btc"
    by (simp_all add: demo_long_btc_def)
  from C5_exit_trigger [OF h1 h2 h3] d sl
  have "list_ex is_close_attempt (new_events ?t (snd (monitor_one ?w demo_long_btc ?t)))"
    by blast
  with h1 f d sl show ?thesis by blast
qed

section \<open>Opening a position: what is submitted\<close>










section \<open>The shared config\<close>

lemma monitor_one_config [simp]: "config (snd (monitor_one w order s)) = config s"
  by (simp add: monitor_one_proj split: sum.splits)

lemma monitor_loop_config [simp]: "config (snd (monitor_loop w os s)) = config s"
  by (induction os arbitrary: s) (simp_all add: monitor_loop_Cons)

lemma monitor_trades_config [simp]: "config (snd (monitor_trades w s)) = config s"
proof (cases "monitor_loop w (open_orders s) s")
  case (Pair r s1)
  then have "config s1 = config s"
    using monitor_loop_config [of w "open_orders s" s] by simp
  with Pair show ?thesis by (cases r) (simp_all add: monitor_trades_def)
qed



section \<open>The ledger invariant\<close>

lemma ledger_ok_remove1: "ledger_ok os \<Longrightarrow> ledger_ok (remove1 x os)"
proof -
  assume "ledger_ok os"
  then have d: "distinct os" and i: "inj_on (\<lambda>order. (symbol order, direction order)) (set os)"
    by (simp_all add: ledger_ok_def distinct_map)
  have "inj_on (\<lambda>order. (symbol order, direction order)) (set (remove1 x os))"
    by (rule inj_on_subset [OF i]) (rule set_remove1_subset)
  with d show ?thesis by (simp add: ledger_ok_def distinct_map)
qed

lemma ledger_ok_append:
  assumes "ledger_ok os" and "\<not> list_ex (same_direction_open fs sg) os" and "sg = 0 \<or> sg = 1"
  shows "ledger_ok (os @ [new_position fs sg cfg p sz])"
  using assms
  by (auto simp: ledger_ok_def list_ex_iff same_direction_open_def new_position_def)

lemma place_order_ledger_ok:
  assumes "ledger_ok (open_orders s)" and "sg = 0 \<or> sg = 1"
  shows "ledger_ok (open_orders (place_order w smb (Some sg) s))"
proof (rule place_order_cases [of "place_order w smb (Some sg) s" w smb sg s])
  show "place_order w smb (Some sg) s = place_order w smb (Some sg) s" by simp
next
  assume "open_orders (place_order w smb (Some sg) s) = open_orders s"
  with assms(1) show ?thesis by simp
next
  fix q cfg' sz
  assume nd: "\<not> list_ex (same_direction_open (format_symbol smb) sg) (open_orders s)"
    and led: "open_orders (place_order w smb (Some sg) s) = open_orders s \<or>
        open_orders (place_order w smb (Some sg) s) =
          open_orders s @ [new_position (format_symbol smb) sg cfg' q sz]"
  from led show ?thesis
    using assms(1) ledger_ok_append [OF assms(1) nd assms(2)] by auto
qed

lemma close_attempts_ledger:
  "open_orders (close_attempts w n order p s) = open_orders s \<or>
   open_orders (close_attempts w n order p s) = remove1 order (open_orders s)"
proof (induction n arbitrary: s)
  case 0
  show ?case by simp
next
  case (Suc n)
  let ?s1 = "snd (do_create w (close_req order) s)"
  have a: "open_orders (close_attempts w n order p (do_sleep w 5 ?s1)) = open_orders s \<or>
      open_orders (close_attempts w n order p (do_sleep w 5 ?s1)) = remove1 order (open_orders s)"
    using Suc.IH [of "do_sleep w 5 ?s1"] by simp
  have b: "open_orders (close_attempts w n order p (do_sleep w 5 (log_trade order p ?s1))) =
        open_orders s \<or>
      open_orders (close_attempts w n order p (do_sleep w 5 (log_trade order p ?s1))) =
        remove1 order (open_orders s)"
    using Suc.IH [of "do_sleep w 5 (log_trade order p ?s1)"] by simp
  show ?case using a b by (simp add: close_attempts_Suc)
qed

lemma close_order_ledger_ok:
  assumes "ledger_ok (open_orders s)"
  shows "ledger_ok (open_orders (close_order w order p s))"
  using close_attempts_ledger [of w 3 order p s] assms ledger_ok_remove1 [OF assms, of order]
  by (auto simp: close_order_def)

lemma monitor_one_ledger_ok:
  assumes "ledger_ok (open_orders s)"
  shows "ledger_ok (open_orders (snd (monitor_one w order s)))"
proof -
  have "ledger_ok (open_orders (close_order w order p (snd (do_fetch w (symbol order) s))))" for p
    by (rule close_order_ledger_ok) (simp add: assms)
  then show ?thesis using assms by (simp add: monitor_one_proj split: sum.splits)
qed

lemma monitor_loop_ledger_ok:
  "ledger_ok (open_orders s) \<Longrightarrow> ledger_ok (open_orders (snd (monitor_loop w os s)))"
  by (induction os arbitrary: s) (simp_all add: monitor_loop_Cons monitor_one_ledger_ok)

lemma monitor_trades_ledger_ok:
  assumes "ledger_ok (open_orders s)"
  shows "ledger_ok (open_orders (snd (monitor_trades w s)))"
proof (cases "monitor_loop w (open_orders s) s")
  case (Pair r s1)
  then have "ledger_ok (open_orders s1)"
    using monitor_loop_ledger_ok [OF assms, of w "open_orders s"] by simp
  with Pair show ?thesis by (cases r) (simp_all add: monitor_trades_def)
qed

lemma reconcile_proj:
  "snd (reconcile w smb sg s) =
     (case find (\<lambda>order. symbol order = format_symbol smb) (open_orders s) of
        None \<Rightarrow> place_order w smb (Some sg) s
      | Some ex \<Rightarrow>
          (case fst (fetch_ticker w (format_symbol smb) (kucoin s)) of
             Inl e \<Rightarrow> snd (do_fetch w (format_symbol smb) s)
           | Inr p \<Rightarrow>
               if conflicting ex sg
               then place_order w smb (Some sg)
                      (close_order w ex p (snd (do_fetch w (format_symbol smb) s)))
               else snd (do_fetch w (format_symbol smb) s)))"
proof (cases "fetch_ticker w (format_symbol smb) (kucoin s)")
  case (Pair r g)
  then show ?thesis
    by (cases r) (simp_all add: reconcile_def do_fetch_def split: option.splits)
qed

lemma reconcile_ledger_ok:
  assumes "ledger_ok (open_orders s)" and "sg = 0 \<or> sg = 1"
  shows "ledger_ok (open_orders (snd (reconcile w smb sg s)))"
proof -
  have a: "ledger_ok (open_orders (place_order w smb (Some sg) s))"
    by (rule place_order_ledger_ok [OF assms])
  have b: "ledger_ok (open_orders (place_order w smb (Some sg)
      (close_order w ex p (snd (do_fetch w (format_symbol smb) s)))))" for ex p
    by (rule place_order_ledger_ok [OF _ assms(2)], rule close_order_ledger_ok) (simp add: assms(1))
  show ?thesis
    using a b assms(1) by (simp add: reconcile_proj split: option.splits sum.splits)
qed

lemma process_symbol_ledger_ok:
  assumes "signals_binary w" and "ledger_ok (open_orders s)"
  shows "ledger_ok (open_orders (snd (process_symbol w smb s)))"
proof (cases "signal_for w smb (kucoin s)")
  case (Pair r g)
  show ?thesis
  proof (cases r)
    case None
    with Pair assms(2) show ?thesis by (simp add: process_symbol_def)
  next
    case (Some sg)
    have "fst (signal_for w smb (kucoin s)) = Some sg" using Pair Some by simp
    then have "sg = 0 \<or> sg = 1" using assms(1) unfolding signals_binary_def by blast
    then have "ledger_ok (open_orders (snd (reconcile w smb sg (s\<lparr>kucoin := g\<rparr>))))"
      by (intro reconcile_ledger_ok) (simp_all add: assms(2))
    with Pair Some show ?thesis by (simp add: process_symbol_def)
  qed
qed

lemma run_symbols_Cons:
  "run_symbols w (smb # rest) s =
     (if isl (fst (process_symbol w smb s)) then process_symbol w smb s
      else run_symbols w rest (snd (process_symbol w smb s)))"
proof (cases "process_symbol w smb s")
  case (Pair r s1)
  then show ?thesis by (cases r) simp_all
qed

lemma run_symbols_ledger_ok:
  assumes "signals_binary w"
  shows "ledger_ok (open_orders s) \<Longrightarrow> ledger_ok (open_orders (snd (run_symbols w syms s)))"
proof (induction syms arbitrary: s)
  case Nil
  then show ?case by simp
next
  case (Cons smb rest)
  have "ledger_ok (open_orders (snd (process_symbol w smb s)))"
    by (rule process_symbol_ledger_ok [OF assms Cons.prems])
  then show ?case
    using Cons.IH by (simp add: run_symbols_Cons del: run_symbols.simps(2))
qed

lemma run_cycle_proj:
  "snd (run_cycle w s) =
     (if isl (fst (run_symbols w (symbols (config s)) s))
      then snd (run_symbols w (symbols (config s)) s)
      else if isl (fst (monitor_trades w (snd (run_symbols w (symbols (config s)) s))))
      then snd (monitor_trades w (snd (run_symbols w (symbols (config s)) s)))
      else do_sleep w (check_interval
               (config (snd (monitor_trades w (snd (run_symbols w (symbols (config s)) s))))) * 60)
             (snd (monitor_trades w (snd (run_symbols w (symbols (config s)) s)))))"
proof (cases "run_symbols w (symbols (config s)) s")
  case rs: (Pair r s1)
  show ?thesis
  proof (cases r)
    case (Inl e)
    with rs show ?thesis by (simp add: run_cycle_def)
  next
    case (Inr u)
    show ?thesis
    proof (cases "monitor_trades w s1")
      case (Pair r2 s2)
      with rs Inr show ?thesis by (cases r2) (simp_all add: run_cycle_def)
    qed
  qed
qed

lemma run_cycle_ledger_ok:
  assumes "signals_binary w" and "ledger_ok (open_orders s)"
  shows "ledger_ok (open_orders (snd (run_cycle w s)))"
proof -
  have a: "ledger_ok (open_orders (snd (run_symbols w (symbols (config s)) s)))"
    by (rule run_symbols_ledger_ok [OF assms])
  have b: "ledger_ok (open_orders (snd (monitor_trades w (snd (run_symbols w (symbols (config s)) s)))))"
    by (rule monitor_trades_ledger_ok [OF a])
  show ?thesis using a b by (simp add: run_cycle_proj)
qed

lemma run_ledger_ok:
  assumes "signals_binary w"
  shows "ledger_ok (open_orders s) \<Longrightarrow> ledger_ok (open_orders (snd (run w n s)))"
proof (induction n arbitrary: s)
  case 0
  then show ?case by simp
next
  case (Suc n)
  have c: "ledger_ok (open_orders (snd (run_cycle w s)))"
    by (rule run_cycle_ledger_ok [OF assms Suc.prems])
  show ?case
  proof (cases "run_cycle w s")
    case (Pair r s1)
    then show ?thesis using c Suc.IH [of s1] by (cases r) simp_all
  qed
qed

lemma find_filter_Nil: "find P xs = None \<longleftrightarrow> filter P xs = []"
  by (induction xs) simp_all

lemma find_filter_Cons: "filter P xs = x # ys \<Longrightarrow> find P xs = Some x"
  by (induction xs) (auto split: if_splits)

lemma place_order_opens:
  assumes "cooperative w"
    and "\<not> list_ex (same_direction_open (format_symbol smb) sg) (open_orders s)"
    and "leverage (config s) \<noteq> 0"
  shows "\<exists>pos. open_orders (place_order w smb (Some sg) s) = open_orders s @ [pos] \<and>
           symbol pos = format_symbol smb \<and>
           direction pos = (if sg = 1 then ''buy'' else ''sell'')"
proof -
  obtain p where f: "fst (fetch_ticker w (format_symbol smb) (kucoin s)) = Inr p" and p: "p \<noteq> 0"
    using assms(1) unfolding cooperative_def by blast
  have acc: "\<not> isl (fst (create_order w req g))" for req g
    using assms(1) unfolding cooperative_def by blast
  let ?c = "corrected_sizing (config s) p"
  have "open_orders (place_order w smb (Some sg) s) =
      open_orders s @ [new_position (format_symbol smb) sg (fst ?c) p (snd ?c)]"
    unfolding place_order_submits [OF assms(2) f p assms(3)] numeral_3_eq_3
    by (simp add: place_attempts_Suc acc)
  then show ?thesis by (simp add: new_position_def)
qed

lemma first_buy:
  assumes "positions_of (format_symbol smb) (open_orders s) = []"
  shows "positions_of (format_symbol smb) (open_orders (snd (reconcile w smb 1 s))) = [] \<or>
         (\<exists>pos. positions_of (format_symbol smb) (open_orders (snd (reconcile w smb 1 s))) = [pos] \<and>
                direction pos = ''buy'')"
proof -
  have none: "find (\<lambda>order. symbol order = format_symbol smb) (open_orders s) = None"
    using assms by (simp add: find_filter_Nil positions_of_def)
  then have eq: "snd (reconcile w smb 1 s) = place_order w smb (Some 1) s"
    by (simp add: reconcile_proj)
  show ?thesis
  proof (rule place_order_cases [of "place_order w smb (Some 1) s" w smb 1 s])
    show "place_order w smb (Some 1) s = place_order w smb (Some 1) s" by simp
  next
    assume "open_orders (place_order w smb (Some 1) s) = open_orders s"
    then show ?thesis using assms eq by simp
  next
    fix q cfg' sz
    assume "open_orders (place_order w smb (Some 1) s) = open_orders s \<or>
        open_orders (place_order w smb (Some 1) s) =
          open_orders s @ [new_position (format_symbol smb) 1 cfg' q sz]"
    then show ?thesis
      using assms eq by (auto simp: positions_of_def new_position_def)
  qed
qed

lemma first_buy_opens:
  assumes "positions_of (format_symbol smb) (open_orders s) = []"
    and "cooperative w" and "leverage (config s) \<noteq> 0"
  shows "\<exists>pos. positions_of (format_symbol smb) (open_orders (snd (reconcile w smb 1 s))) = [pos] \<and>
           direction pos = ''buy''"
proof -
  have none: "find (\<lambda>order. symbol order = format_symbol smb) (open_orders s) = None"
    using assms(1) by (simp add: find_filter_Nil positions_of_def)
  then have eq: "snd (reconcile w smb 1 s) = place_order w smb (Some 1) s"
    by (simp add: reconcile_proj)
  have nd: "\<not> list_ex (same_direction_open (format_symbol smb) 1) (open_orders s)"
    using assms(1)
    by (auto simp: positions_of_def list_ex_iff same_direction_open_def filter_empty_conv)
  obtain pos where "open_orders (place_order w smb (Some 1) s) = open_orders s @ [pos]"
    and "symbol pos = format_symbol smb" and "direction pos = ''buy''"
    using place_order_opens [OF assms(2) nd assms(3)] by auto
  then show ?thesis using assms(1) eq by (simp add: positions_of_def)
qed

lemma repeated_buy:
  assumes "positions_of (format_symbol smb) (open_orders s) = [pos]" and "direction pos = ''buy''"
  shows "open_orders (snd (reconcile w smb 1 s)) = open_orders s"
proof -
  have "find (\<lambda>order. symbol order = format_symbol smb) (open_orders s) = Some pos"
    using assms(1) by (simp add: find_filter_Cons positions_of_def)
  moreover have "\<not> conflicting pos 1"
    using assms(2) by (simp add: conflicting_def)
  ultimately show ?thesis by (simp add: reconcile_proj split: sum.splits)
qed

lemma two_buys:
  assumes "positions_of (format_symbol smb) (open_orders s) = []"
  shows "length (positions_of (format_symbol smb)
           (open_orders (snd (reconcile w smb 1 (snd (reconcile w smb 1 s)))))) \<le> 1"
    and "cooperative w \<Longrightarrow> leverage (config s) \<noteq> 0 \<Longrightarrow>
         length (positions_of (format_symbol smb)
           (open_orders (snd (reconcile w smb 1 (snd (reconcile w smb 1 s)))))) = 1"
proof -
  let ?s1 = "snd (reconcile w smb 1 s)"
  let ?s2 = "snd (reconcile w smb 1 ?s1)"
  from first_buy [OF assms, of w]
  show "length (positions_of (format_symbol smb) (open_orders ?s2)) \<le> 1"
  proof (elim disjE exE conjE)
    assume e: "positions_of (format_symbol smb) (open_orders ?s1) = []"
    from first_buy [OF e, of w] show ?thesis by auto
  next
    fix pos
    assume "positions_of (format_symbol smb) (open_orders ?s1) = [pos]" and "direction pos = ''buy''"
    then show ?thesis using repeated_buy [of smb ?s1 pos w] by simp
  qed
  show "length (positions_of (format_symbol smb) (open_orders ?s2)) = 1"
    if c: "cooperative w" and l: "leverage (config s) \<noteq> 0"
  proof -
    obtain pos where "positions_of (format_symbol smb) (open_orders ?s1) = [pos]"
      and "direction pos = ''buy''"
      using first_buy_opens [OF assms c l] by blast
    then show ?thesis using repeated_buy [of smb ?s1 pos w] by simp
  qed
qed

text \<open>
  C3. The ledger starts empty and, with signals that are 1 (BUY) or 0 (SELL), every
  operation keeps it free of two positions with the same symbol and direction: an open
  (place_order), a close (close_order), the exit monitor, the reconciliation of a signal,
  and any number of cycles of the run loop. In particular, two consecutive BUY signals
  for a symbol that had no position leave at most one position for that symbol, and
  exactly one when the exchange answers every call (a non-zero price for every ticker
  fetch, every order accepted) and the leverage is not zero.
\<close>

theorem C3_no_duplicate_positions:
  assumes "signals_binary w" and "ledger_ok (open_orders s)"
  shows "ledger_ok (open_orders (snd (run w n s))) \<and>
         (\<forall>smb sg. sg = 0 \<or> sg = 1 \<longrightarrow>
            ledger_ok (open_orders (place_order w smb (Some sg) s)) \<and>
            ledger_ok (open_orders (snd (reconcile w smb sg s)))) \<and>
         (\<forall>order p. ledger_ok (open_orders (close_order w order p s))) \<and>
         ledger_ok (open_orders (snd (monitor_trades w s))) \<and>
         (\<forall>smb. positions_of (format_symbol smb) (open_orders s) = [] \<longrightarrow>
            length (positions_of (format_symbol smb)
              (open_orders (snd (reconcile w smb 1 (snd (reconcile w smb 1 s)))))) \<le> 1 \<and>
            (cooperative w \<and> leverage (config s) \<noteq> 0 \<longrightarrow>
               length (positions_of (format_symbol smb)
                 (open_orders (snd (reconcile w smb 1 (snd (reconcile w smb 1 s)))))) = 1))"
proof (intro conjI allI impI)
  show "ledger_ok (open_orders (snd (run w n s)))"
    by (rule run_ledger_ok [OF assms])
  show "ledger_ok (open_orders (place_order w smb (Some sg) s))" if "sg = 0 \<or> sg = 1" for smb sg
    by (rule place_order_ledger_ok [OF assms(2) that])
  show "ledger_ok (open_orders (snd (reconcile w smb sg s)))" if "sg = 0 \<or> sg = 1" for smb sg
    by (rule reconcile_ledger_ok [OF assms(2) that])
  show "ledger_ok (open_orders (close_order w order p s))" for order p
    by (rule close_order_ledger_ok [OF assms(2)])
  show "ledger_ok (open_orders (snd (monitor_trades w s)))"
    by (rule monitor_trades_ledger_ok [OF assms(2)])
  show "length (positions_of (format_symbol smb)
      (open_orders (snd (reconcile w smb 1 (snd (reconcile w smb 1 s)))))) \<le> 1"
    if "positions_of (format_symbol smb) (open_orders s) = []" for smb
    by (rule two_buys(1) [OF that])
  show "length (positions_of (format_symbol smb)
      (open_orders (snd (reconcile w smb 1 (snd (reconcile w smb 1 s)))))) = 1"
    if "positions_of (format_symbol smb) (open_orders s) = []"
      and "cooperative w \<and> leverage (config s) \<noteq> 0" for smb
    using two_buys(2) [OF that(1)] that(2) by blast
qed

theorem C3_no_duplicate_positions_witness:
  "signals_binary (fixed_world (Inr 100) True True (Some 1)) \<and>
   ledger_ok (open_orders demo_init) \<and>
   positions_of (format_symbol ''ETH-USD'') (open_orders demo_init) = [] \<and>
   cooperative (fixed_world (Inr 100) True True (Some 1)) \<and>
   leverage (config demo_init) \<noteq> 0 \<and>
   ledger_ok (open_orders (snd (run (fixed_world (Inr 100) True True (Some 1)) 2 demo_init))) \<and>
   length (positions_of (format_symbol ''ETH-USD'')
     (open_orders (snd (reconcile (fixed_world (Inr 100) True True (Some 1)) ''ETH-USD'' 1
        (snd (reconcile (fixed_world (Inr 100) True True (Some 1)) ''ETH-USD'' 1 demo_init)))))) = 1"
proof -
  have h1: "signals_binary (fixed_world (Inr 100) True True (Some 1))"
    by (simp add: signals_binary_def fixed_world_def)
  have h2: "ledger_ok (open_orders demo_init)"
    by (simp add: ledger_ok_def demo_init_def init_bot_def)
  have h3: "positions_of (format_symbol ''ETH-USD'') (open_orders demo_init) = []"
    by (simp add: positions_of_def demo_init_def init_bot_def)
  have h4: "cooperative (fixed_world (Inr 100) True True (Some 1))"
    by (simp add: cooperative_def fixed_world_def)
  have h5: "leverage (config demo_init) \<noteq> 0"
    by (simp add: demo_init_def init_bot_def demo_config_def)
  note r = C3_no_duplicate_positions [OF h1 h2]
  have a: "ledger_ok (open_orders (snd (run (fixed_world (Inr 100) True True (Some 1)) 2 demo_init)))"
    using r [of 2] by blast
  have b: "length (positions_of (format_symbol ''ETH-USD'')
     (open_orders (snd (reconcile (fixed_world (Inr 100) True True (Some 1)) ''ETH-USD'' 1
        (snd (reconcile (fixed_world (Inr 100) True True (Some 1)) ''ETH-USD'' 1 demo_init)))))) = 1"
    using r [of 0] h3 h4 h5 by blast
  show ?thesis by (intro conjI h1 h2 h3 h4 h5 a b)
qed

section \<open>Exceptions of the exchange in the run loop\<close>

text \<open>
  C2 (the code at a failing input). From the initial state, with the configured symbol
  ETH-USD and a BUY signal in every cycle: when the exchange fails from its third ticker
  fetch on, the fetch of the exit monitor (order_manager.py:107) raises in the first cycle
  and the exception leaves the run loop; when it fails from its fourth fetch on, the fetch
  of the conflict check (bot.py:124) raises in the second cycle and leaves the run loop.
\<close>

theorem C2_ticker_exception_leaves_run:
  "fst (run (outage_world 2) 1 (init_bot demo_config 0)) = Inl ExchangeError \<and>
   new_events (init_bot demo_config 0) (snd (run (outage_world 2) 1 (init_bot demo_config 0))) =
     [Fetch_ticker ''ETH/USDT:USDT'',
      Create_order \<lparr>req_symbol = ''ETH/USDT:USDT'', req_side = ''buy'', req_amount = 1,
                    req_leverage = Some 5, req_client_oid = Some 0, reduce_only = False\<rparr> True,
      Fetch_ticker ''ETH/USDT:USDT'', Fetch_ticker ''ETH/USDT:USDT''] \<and>
   fst (run (outage_world 3) 2 (init_bot demo_config 0)) = Inl ExchangeError"
  by code_simp

end
